theory Spec2Isabelle
  imports Main "HOL-Library.Multiset"
begin

section \<open>JavaScript values used by the generators\<close>

text \<open>
  A plain JavaScript object with string keys is represented by the table of its own
  properties in the order of their creation. \<open>obj_get\<close> finds an own property
  (\<open>None\<close> when the object has none of that name) and \<open>obj_set\<close> defines one: the
  value of an existing property is replaced where it stands, a new property comes after
  the others. Neither of them is the JavaScript read \<^verbatim>\<open>obj[k]\<close> or the assignment
  \<^verbatim>\<open>obj[k] = v\<close>, which go through the prototype chain; those are \<open>js_get\<close> and the
  cases of \<open>paramsStep\<close> below.
\<close>

type_synonym 'v js_object = "(string \<times> 'v) list"

fun obj_get :: "'v js_object \<Rightarrow> string \<Rightarrow> 'v option" where
  "obj_get [] k = None"
| "obj_get ((k', v') # kvs) k = (if k' = k then Some v' else obj_get kvs k)"

fun obj_set :: "'v js_object \<Rightarrow> string \<Rightarrow> 'v \<Rightarrow> 'v js_object" where
  "obj_set [] k v = [(k, v)]"
| "obj_set ((k', v') # kvs) k v =
     (if k' = k then (k, v) # kvs else (k', v') # obj_set kvs k v)"

definition obj_keys :: "'v js_object \<Rightarrow> string list" where
  "obj_keys obj = map fst obj"

text \<open>
  An array index is a key that is the decimal numeral, without sign and without leading
  zeros, of a number below \<open>2^32 - 1\<close>. \<^verbatim>\<open>Object.entries\<close> enumerates the properties
  whose keys are array indices first, in ascending numeric order, and the other
  properties after them in the order of their creation.
\<close>

definition digit :: "char \<Rightarrow> bool" where
  "digit c \<longleftrightarrow> (48::nat) \<le> of_char c \<and> of_char c \<le> (57::nat)"

fun decimal :: "nat \<Rightarrow> string \<Rightarrow> nat" where
  "decimal n [] = n"
| "decimal n (c # cs) = decimal (10 * n + (of_char c - 48)) cs"

definition array_index :: "string \<Rightarrow> nat option" where
  "array_index k =
     (case k of
        [] \<Rightarrow> None
      | c # cs \<Rightarrow>
          if list_all digit k \<and> (c \<noteq> CHR ''0'' \<or> cs = []) \<and> decimal 0 k < 4294967295
          then Some (decimal 0 k) else None)"

definition index_of :: "string \<times> 'v \<Rightarrow> nat" where
  "index_of kv = (case array_index (fst kv) of None \<Rightarrow> 0 | Some i \<Rightarrow> i)"

definition Object_entries :: "'v js_object \<Rightarrow> (string \<times> 'v) list" where
  "Object_entries obj =
     sort_key index_of (filter (\<lambda>kv. array_index (fst kv) \<noteq> None) obj) @
     filter (\<lambda>kv. array_index (fst kv) = None) obj"

text \<open>
  \<^verbatim>\<open>Array.prototype.join\<close> on an array of strings: the separator stands between
  consecutive elements, and the empty array gives the empty string.
\<close>

fun array_join :: "string list \<Rightarrow> string \<Rightarrow> string" where
  "array_join [] sep = []"
| "array_join [x] sep = x"
| "array_join (x # y # ys) sep = x @ sep @ array_join (y # ys) sep"

text \<open>
  The run-time failure the generators can meet is a \<^verbatim>\<open>TypeError\<close>: the modules are
  strict code, where an assignment that cannot be carried out throws.
\<close>

datatype error = TypeError

text \<open>
  \<^verbatim>\<open>Object.prototype\<close>, from which the accumulator and its sections inherit. Its own
  properties are the built-in functions, the accessor \<^verbatim>\<open>__proto__\<close> and, once an
  assignment has reached it, strings. \<open>Object_prototype\<close> is the table the language
  defines, before any such assignment.
\<close>

datatype member = BuiltinFunction string | ProtoAccessor | StringValue string

definition Object_prototype :: "member js_object" where
  "Object_prototype =
     [(''constructor'', BuiltinFunction ''Object''),
      (''__defineGetter__'', BuiltinFunction ''__defineGetter__''),
      (''__defineSetter__'', BuiltinFunction ''__defineSetter__''),
      (''hasOwnProperty'', BuiltinFunction ''hasOwnProperty''),
      (''__lookupGetter__'', BuiltinFunction ''__lookupGetter__''),
      (''__lookupSetter__'', BuiltinFunction ''__lookupSetter__''),
      (''isPrototypeOf'', BuiltinFunction ''isPrototypeOf''),
      (''propertyIsEnumerable'', BuiltinFunction ''propertyIsEnumerable''),
      (''toString'', BuiltinFunction ''toString''),
      (''valueOf'', BuiltinFunction ''valueOf''),
      (''__proto__'', ProtoAccessor),
      (''toLocaleString'', BuiltinFunction ''toLocaleString'')]"

text \<open>
  What the read \<^verbatim>\<open>acc[k]\<close> can give: an own section of the accumulator, or else what
  \<^verbatim>\<open>Object.prototype\<close> holds under \<open>k\<close>. The getter of \<^verbatim>\<open>__proto__\<close> returns the
  prototype of the accumulator, which is \<^verbatim>\<open>Object.prototype\<close> itself.
\<close>

datatype js_value =
    Undefined
  | Section "string js_object"
  | ObjectPrototype
  | FunctionObject string
  | StringPrimitive string

definition js_get :: "string js_object js_object \<Rightarrow> member js_object \<Rightarrow> string \<Rightarrow> js_value" where
  "js_get acc proto k =
     (case obj_get acc k of
        Some s \<Rightarrow> Section s
      | None \<Rightarrow>
          (case obj_get proto k of
             None \<Rightarrow> Undefined
           | Some ProtoAccessor \<Rightarrow> ObjectPrototype
           | Some (BuiltinFunction f) \<Rightarrow> FunctionObject f
           | Some (StringValue t) \<Rightarrow> StringPrimitive t))"

definition falsy :: "js_value \<Rightarrow> bool" where
  "falsy v \<longleftrightarrow> v = Undefined \<or> v = StringPrimitive ''''"

text \<open>
  The properties of a built-in function that an assignment cannot change: its own
  \<^verbatim>\<open>length\<close> and \<^verbatim>\<open>name\<close>, the poisoned \<^verbatim>\<open>caller\<close> and \<^verbatim>\<open>arguments\<close>, and the
  \<^verbatim>\<open>prototype\<close> of the constructor \<^verbatim>\<open>Object\<close>.
\<close>

definition read_only :: "string \<Rightarrow> string \<Rightarrow> bool" where
  "read_only f k \<longleftrightarrow>
     k = ''length'' \<or> k = ''name'' \<or> k = ''caller'' \<or> k = ''arguments'' \<or>
     (f = ''Object'' \<and> k = ''prototype'')"

section \<open>core/validator/is-http-method.ts\<close>

definition isHttpMethod :: "string \<Rightarrow> bool" where
  "isHttpMethod method \<longleftrightarrow>
     method = ''get'' \<or>
     method = ''post'' \<or>
     method = ''put'' \<or>
     method = ''delete'' \<or>
     method = ''patch'' \<or>
     method = ''options'' \<or>
     method = ''head''"

section \<open>generateZodObjectSchema\<close>

text \<open>
  The argument is a \<^verbatim>\<open>Record<string, string>\<close>; the function takes its
  \<^verbatim>\<open>Object.entries\<close>, maps every entry to \<^verbatim>\<open>key:val\<close>, joins the pieces with a comma
  and puts the result into the template \<^verbatim>\<open>z.object({...})\<close>.
\<close>

definition generateZodObjectSchema :: "string js_object \<Rightarrow> string" where
  "generateZodObjectSchema object =
     ''z.object({'' @
       array_join (map (\<lambda>(key, val). key @ '':'' @ val) (Object_entries object)) '','' @
     ''})''"

section \<open>generators/request/params/generate-params-object.ts\<close>

text \<open>
  The declarations of \<^verbatim>\<open>Parameters\<close> and of the schema type are not among the
  sources; the records below hold the fields that \<^verbatim>\<open>generateParamsObject\<close> reads.
  A schema is an extensible record: the function looks at its \<^verbatim>\<open>type\<close> property
  only and hands the whole schema to \<^verbatim>\<open>generateZodSchema\<close>. \<open>type = None\<close> is a
  schema without an own property \<^verbatim>\<open>type\<close>. A descriptor has \<^verbatim>\<open>name\<close>, \<^verbatim>\<open>in\<close>,
  \<^verbatim>\<open>required\<close> and \<^verbatim>\<open>schema\<close> as own properties. The field \<^verbatim>\<open>in\<close> is written
  \<open>in'\<close>.
\<close>

record Schema =
  type :: "string option"

record 'a Parameters =
  name :: string
  in' :: string
  required :: bool
  schema :: "'a Schema_scheme"

text \<open>
  A \<^verbatim>\<open>ParamsObject\<close> is an object whose properties are the sections, each section an
  object from parameter names to Zod expressions.
\<close>

type_synonym ParamsObject = "string js_object js_object"

text \<open>
  \<^verbatim>\<open>generateZodSchema\<close> and \<^verbatim>\<open>generateZodCoerce\<close> are imported from modules that
  are not among the sources; they are the parameters \<open>gz\<close> and \<open>gc\<close> of the
  definitions below, functions of their arguments.
\<close>

definition optionalSuffix :: "'a Parameters \<Rightarrow> string" where
  "optionalSuffix param = (if required param then '''' else ''.optional()'')"

text \<open>
  The read \<^verbatim>\<open>param.schema.type\<close>: the own property, or else a string that
  \<^verbatim>\<open>Object.prototype\<close> holds under \<^verbatim>\<open>type\<close>.
\<close>

definition schema_type :: "member js_object \<Rightarrow> 'a Parameters \<Rightarrow> string option" where
  "schema_type proto param =
     (case type (schema param) of
        Some t \<Rightarrow> Some t
      | None \<Rightarrow> (case obj_get proto ''type'' of Some (StringValue t) \<Rightarrow> Some t | _ \<Rightarrow> None))"

definition zodSchema ::
  "('a Schema_scheme \<Rightarrow> string) \<Rightarrow> (string \<Rightarrow> string \<Rightarrow> string) \<Rightarrow>
   member js_object \<Rightarrow> 'a Parameters \<Rightarrow> string" where
  "zodSchema gz gc proto param =
     (let baseSchema = gz (schema param)
      in if in' param = ''query'' \<and>
            (schema_type proto param = Some ''number'' \<or>
             schema_type proto param = Some ''integer'')
         then gc ''z.string()'' baseSchema
         else baseSchema)"

text \<open>
  The callback of \<^verbatim>\<open>reduce\<close>, on the accumulator and \<^verbatim>\<open>Object.prototype\<close>.

  Line 72 reads \<^verbatim>\<open>acc[paramLocation]\<close> and creates the section when the value is
  falsy; the new section becomes an own property of the accumulator.

  Line 83 reads \<^verbatim>\<open>acc[paramLocation]\<close> again and assigns to the property
  \<^verbatim>\<open>param.name\<close> of what it finds. An assignment that meets the accessor
  \<^verbatim>\<open>__proto__\<close> on the prototype chain calls its setter, which ignores a string and
  changes nothing. Otherwise: on a section the assignment defines an own property of the
  section; on \<^verbatim>\<open>Object.prototype\<close> it defines a property there; on a built-in function
  it throws for a read-only property and else changes the function only; on a string it
  throws; on \<^verbatim>\<open>undefined\<close> it throws.
\<close>

definition paramsStep ::
  "('a Schema_scheme \<Rightarrow> string) \<Rightarrow> (string \<Rightarrow> string \<Rightarrow> string) \<Rightarrow>
   ParamsObject \<times> member js_object \<Rightarrow> 'a Parameters \<Rightarrow>
   error + ParamsObject \<times> member js_object" where
  "paramsStep gz gc state param =
     (let (acc, proto) = state;
          paramLocation = in' param;
          value = zodSchema gz gc proto param @ optionalSuffix param;
          acc1 = (if falsy (js_get acc proto paramLocation)
                  then obj_set acc paramLocation [] else acc);
          setter = (obj_get proto (name param) = Some ProtoAccessor)
      in case js_get acc1 proto paramLocation of
           Undefined \<Rightarrow> Inl TypeError
         | Section s \<Rightarrow>
             Inr (obj_set acc1 paramLocation
                    (if obj_get s (name param) = None \<and> setter then s
                     else obj_set s (name param) value),
                  proto)
         | ObjectPrototype \<Rightarrow>
             Inr (acc1, if setter then proto else obj_set proto (name param) (StringValue value))
         | FunctionObject f \<Rightarrow>
             if read_only f (name param) then Inl TypeError else Inr (acc1, proto)
         | StringPrimitive t \<Rightarrow>
             if setter then Inr (acc1, proto) else Inl TypeError)"

text \<open>\<^verbatim>\<open>Array.prototype.reduce\<close> with an initial value; an exception ends the loop.\<close>

fun reduce :: "('b \<Rightarrow> 'a \<Rightarrow> error + 'b) \<Rightarrow> 'a list \<Rightarrow> 'b \<Rightarrow> error + 'b" where
  "reduce f [] acc = Inr acc"
| "reduce f (x # xs) acc = (case f acc x of Inl e \<Rightarrow> Inl e | Inr acc' \<Rightarrow> reduce f xs acc')"

text \<open>
  The function starts from the empty accumulator, in a program whose
  \<^verbatim>\<open>Object.prototype\<close> is the one the language defines, and returns the accumulator;
  what the run has written to \<^verbatim>\<open>Object.prototype\<close> stays behind in the program.
\<close>

definition generateParamsObject ::
  "('a Schema_scheme \<Rightarrow> string) \<Rightarrow> (string \<Rightarrow> string \<Rightarrow> string) \<Rightarrow>
   'a Parameters list \<Rightarrow> error + ParamsObject" where
  "generateParamsObject gz gc parameters =
     (case reduce (paramsStep gz gc) parameters ([], Object_prototype) of
        Inl e \<Rightarrow> Inl e
      | Inr (acc, proto) \<Rightarrow> Inr acc)"

text \<open>
  Reading a finished \<^verbatim>\<open>ParamsObject\<close>: \<open>entry obj section key\<close> is the own property
  \<open>key\<close> of the own section \<open>section\<close>, and \<open>None\<close> when either is absent.
\<close>

definition entry :: "ParamsObject \<Rightarrow> string \<Rightarrow> string \<Rightarrow> string option" where
  "entry obj section key =
     (case obj_get obj section of None \<Rightarrow> None | Some s \<Rightarrow> obj_get s key)"

text \<open>
  A location is ordinary when \<^verbatim>\<open>Object.prototype\<close> has no member of that name: path,
  query, header, body and cookie are ordinary, \<^verbatim>\<open>toString\<close> and \<^verbatim>\<open>__proto__\<close> are
  not.
\<close>

definition ordinary :: "string \<Rightarrow> bool" where
  "ordinary l \<longleftrightarrow> obj_get Object_prototype l = None"


section \<open>Lemmas on objects and on joining\<close>

lemma array_join_Cons:
  "array_join (x # xs) sep = x @ concat (map (\<lambda>y. sep @ y) xs)"
  by (induction xs arbitrary: x) auto

lemma obj_get_set: "obj_get (obj_set obj k v) k' = (if k' = k then Some v else obj_get obj k')"
  by (induction obj) auto

lemma obj_keys_simps:
  "obj_keys [] = []" "obj_keys ((k, v) # kvs) = k # obj_keys kvs"
  by (simp_all add: obj_keys_def)

lemma obj_get_keys: "(obj_get obj k = None) = (k \<notin> set (obj_keys obj))"
proof (induction obj)
  case Nil
  show ?case by (simp add: obj_keys_simps)
next
  case (Cons kv obj)
  obtain k' v' where kv: "kv = (k', v')" by (cases kv)
  from Cons show ?case by (simp add: kv obj_keys_simps)
qed

lemma obj_keys_get: "(k \<in> set (obj_keys obj)) = (obj_get obj k \<noteq> None)"
  by (simp add: obj_get_keys)

lemma obj_keys_set:
  "obj_keys (obj_set obj k v) =
     (if k \<in> set (obj_keys obj) then obj_keys obj else obj_keys obj @ [k])"
proof (induction obj)
  case Nil
  show ?case by (simp add: obj_keys_simps)
next
  case (Cons kv obj)
  obtain k' v' where kv: "kv = (k', v')" by (cases kv)
  from Cons show ?case by (simp add: kv obj_keys_simps)
qed




lemma obj_get_map_of: "obj_get obj k = map_of obj k"
  by (induction obj) auto

lemma setter_iff: "(obj_get Object_prototype k = Some ProtoAccessor) = (k = ''__proto__'')"
proof
  assume "obj_get Object_prototype k = Some ProtoAccessor"
  then have "(k, ProtoAccessor) \<in> set Object_prototype"
    by (simp add: obj_get_map_of map_of_SomeD)
  then show "k = ''__proto__''"
    by (simp add: Object_prototype_def)
next
  assume "k = ''__proto__''"
  then show "obj_get Object_prototype k = Some ProtoAccessor"
    by (simp add: Object_prototype_def)
qed

lemma ordinary_type: "obj_get Object_prototype ''type'' = None"
  by (simp add: Object_prototype_def)

lemma zodSchema_pristine:
  "zodSchema gz gc Object_prototype p =
     (if in' p = ''query'' \<and>
         (type (schema p) = Some ''number'' \<or> type (schema p) = Some ''integer'')
      then gc ''z.string()'' (gz (schema p)) else gz (schema p))"
  by (auto simp: zodSchema_def schema_type_def ordinary_type Let_def split: option.splits)

lemma Object_entries_named:
  assumes "\<forall>kv \<in> set obj. array_index (fst kv) = None"
  shows "Object_entries obj = obj"
proof -
  from assms have "filter (\<lambda>kv. array_index (fst kv) \<noteq> None) obj = []"
    by (simp add: filter_empty_conv)
  moreover from assms have "filter (\<lambda>kv. array_index (fst kv) = None) obj = obj"
    by (simp add: filter_id_conv)
  ultimately show ?thesis by (simp add: Object_entries_def)
qed

lemma array_index_examples:
  "array_index ''1'' = Some 1" "array_index ''b'' = None"
  "array_index ''name'' = None" "array_index ''age'' = None" "array_index ''isActive'' = None"
  by (simp_all add: array_index_def digit_def)

section \<open>Lemmas on the reduction step\<close>

lemma paramsStep_ordinary:
  assumes "ordinary (in' p)"
  shows "paramsStep gz gc (acc, Object_prototype) p =
     Inr (obj_set (if obj_get acc (in' p) = None then obj_set acc (in' p) [] else acc) (in' p)
           (if name p = ''__proto__'' \<and>
               obj_get (case obj_get acc (in' p) of None \<Rightarrow> [] | Some s \<Rightarrow> s) (name p) = None
            then (case obj_get acc (in' p) of None \<Rightarrow> [] | Some s \<Rightarrow> s)
            else obj_set (case obj_get acc (in' p) of None \<Rightarrow> [] | Some s \<Rightarrow> s) (name p)
                   (zodSchema gz gc Object_prototype p @ optionalSuffix p)),
          Object_prototype)"
proof (cases "obj_get acc (in' p)")
  case None
  with assms show ?thesis
    by (simp add: paramsStep_def js_get_def falsy_def ordinary_def obj_get_set setter_iff Let_def)
next
  case (Some s)
  with assms show ?thesis
    by (auto simp add: paramsStep_def js_get_def falsy_def ordinary_def obj_get_set setter_iff Let_def)
qed

lemma paramsStep_other_section:
  assumes "paramsStep gz gc (acc, proto) p = Inr (acc', proto')" and "l \<noteq> in' p"
  shows "obj_get acc' l = obj_get acc l"
  using assms
  by (auto simp: paramsStep_def Let_def obj_get_set split: js_value.splits if_splits)

lemma paramsStep_ordinary_total:
  "ordinary (in' p) \<Longrightarrow> \<exists>acc'. paramsStep gz gc (acc, Object_prototype) p = Inr (acc', Object_prototype)"
  by (simp add: paramsStep_ordinary)

lemma paramsStep_ordinary_entry:
  assumes o: "ordinary (in' p)"
    and st: "paramsStep gz gc (acc, Object_prototype) p = Inr (acc', proto')"
    and inv: "\<forall>l. entry acc l ''__proto__'' = None"
  shows "entry acc' l n =
     (if l = in' p \<and> n = name p \<and> name p \<noteq> ''__proto__''
      then Some (zodSchema gz gc Object_prototype p @ optionalSuffix p)
      else entry acc l n)"
proof (cases "l = in' p")
  case True
  from inv have "entry acc (in' p) ''__proto__'' = None" by blast
  with True st show ?thesis
    unfolding paramsStep_ordinary[OF o]
    by (auto simp: entry_def obj_get_set split: option.splits)
next
  case False
  with paramsStep_other_section[OF st False] show ?thesis
    by (simp add: entry_def)
qed

lemma paramsStep_ordinary_sections:
  assumes o: "ordinary (in' p)"
    and st: "paramsStep gz gc (acc, Object_prototype) p = Inr (acc', proto')"
  shows "obj_keys acc' =
     (if in' p \<in> set (obj_keys acc) then obj_keys acc else obj_keys acc @ [in' p])"
  using st unfolding paramsStep_ordinary[OF o]
  by (auto simp: obj_keys_set obj_get_keys)


section \<open>Lemmas on the reduction\<close>

lemma reduce_append:
  "reduce f (xs @ ys) acc = (case reduce f xs acc of Inl e \<Rightarrow> Inl e | Inr a \<Rightarrow> reduce f ys a)"
  by (induction xs arbitrary: acc) (auto split: sum.splits)

lemma reduce_ordinary_total:
  assumes "\<forall>r \<in> set ps. ordinary (in' r)"
  shows "\<exists>acc'. reduce (paramsStep gz gc) ps (acc, Object_prototype) = Inr (acc', Object_prototype)"
  using assms
proof (induction ps arbitrary: acc)
  case Nil
  show ?case by simp
next
  case (Cons p ps)
  then have o: "ordinary (in' p)" and os: "\<forall>r \<in> set ps. ordinary (in' r)" by simp_all
  obtain a where a: "paramsStep gz gc (acc, Object_prototype) p = Inr (a, Object_prototype)"
    using paramsStep_ordinary_total[OF o] by blast
  with Cons.IH[OF os, of a] show ?case by simp
qed

lemma paramsStep_ordinary_inv:
  assumes o: "ordinary (in' p)"
    and st: "paramsStep gz gc (acc, Object_prototype) p = Inr (acc', proto')"
    and inv: "\<forall>l. entry acc l ''__proto__'' = None"
  shows "\<forall>l. entry acc' l ''__proto__'' = None"
proof
  fix l
  from inv have "entry acc l ''__proto__'' = None" by blast
  then show "entry acc' l ''__proto__'' = None"
    by (simp add: paramsStep_ordinary_entry[OF o st inv])
qed

lemma reduce_ordinary_Cons:
  assumes "\<forall>r \<in> set (p # ps). ordinary (in' r)"
    and "reduce (paramsStep gz gc) (p # ps) (acc, Object_prototype) = Inr (acc', proto')"
  obtains a where "paramsStep gz gc (acc, Object_prototype) p = Inr (a, Object_prototype)"
    and "reduce (paramsStep gz gc) ps (a, Object_prototype) = Inr (acc', proto')"
    and "ordinary (in' p)" and "\<forall>r \<in> set ps. ordinary (in' r)"
proof -
  from assms(1) have o: "ordinary (in' p)" and os: "\<forall>r \<in> set ps. ordinary (in' r)" by simp_all
  obtain a where a: "paramsStep gz gc (acc, Object_prototype) p = Inr (a, Object_prototype)"
    using paramsStep_ordinary_total[OF o] by blast
  with assms(2) have r: "reduce (paramsStep gz gc) ps (a, Object_prototype) = Inr (acc', proto')"
    by simp
  show ?thesis by (rule that[OF a r o os])
qed

lemma reduce_ordinary_inv:
  assumes "\<forall>r \<in> set ps. ordinary (in' r)"
    and "reduce (paramsStep gz gc) ps (acc, Object_prototype) = Inr (acc', proto')"
    and "\<forall>l. entry acc l ''__proto__'' = None"
  shows "\<forall>l. entry acc' l ''__proto__'' = None"
  using assms
proof (induction ps arbitrary: acc)
  case Nil
  then show ?case by simp
next
  case (Cons p ps)
  from Cons.prems(1,2) obtain a where
    a: "paramsStep gz gc (acc, Object_prototype) p = Inr (a, Object_prototype)"
    and r: "reduce (paramsStep gz gc) ps (a, Object_prototype) = Inr (acc', proto')"
    and o: "ordinary (in' p)" and os: "\<forall>r \<in> set ps. ordinary (in' r)"
    by (rule reduce_ordinary_Cons)
  from Cons.IH[OF os r paramsStep_ordinary_inv[OF o a Cons.prems(3)]] show ?case .
qed


lemma reduce_ordinary_sections:
  assumes "\<forall>r \<in> set ps. ordinary (in' r)"
    and "reduce (paramsStep gz gc) ps (acc, Object_prototype) = Inr (acc', proto')"
  shows "set (obj_keys acc') = set (obj_keys acc) \<union> in' ` set ps"
  using assms
proof (induction ps arbitrary: acc)
  case Nil
  then show ?case by simp
next
  case (Cons p ps)
  from Cons.prems(1,2) obtain a where
    a: "paramsStep gz gc (acc, Object_prototype) p = Inr (a, Object_prototype)"
    and r: "reduce (paramsStep gz gc) ps (a, Object_prototype) = Inr (acc', proto')"
    and o: "ordinary (in' p)" and os: "\<forall>r \<in> set ps. ordinary (in' r)"
    by (rule reduce_ordinary_Cons)
  have "set (obj_keys a) = insert (in' p) (set (obj_keys acc))"
    by (simp add: paramsStep_ordinary_sections[OF o a] insert_absorb)
  with Cons.IH[OF os r] show ?case by simp
qed

lemma reduce_ordinary_unmatched:
  assumes "\<forall>r \<in> set ps. ordinary (in' r)"
    and "reduce (paramsStep gz gc) ps (acc, Object_prototype) = Inr (acc', proto')"
    and "\<forall>l. entry acc l ''__proto__'' = None"
    and "\<forall>r \<in> set ps. \<not> (in' r = l \<and> name r = n)"
  shows "entry acc' l n = entry acc l n"
  using assms
proof (induction ps arbitrary: acc)
  case Nil
  then show ?case by simp
next
  case (Cons p ps)
  from Cons.prems(1,2) obtain a where
    a: "paramsStep gz gc (acc, Object_prototype) p = Inr (a, Object_prototype)"
    and r: "reduce (paramsStep gz gc) ps (a, Object_prototype) = Inr (acc', proto')"
    and o: "ordinary (in' p)" and os: "\<forall>r \<in> set ps. ordinary (in' r)"
    by (rule reduce_ordinary_Cons)
  from Cons.prems(4) have np: "\<not> (l = in' p \<and> n = name p)"
    and nps: "\<forall>r \<in> set ps. \<not> (in' r = l \<and> name r = n)" by auto
  have "entry acc' l n = entry a l n"
    by (rule Cons.IH[OF os r paramsStep_ordinary_inv[OF o a Cons.prems(3)] nps])
  also from np have "\<dots> = entry acc l n"
    using paramsStep_ordinary_entry[OF o a Cons.prems(3), of l n] by auto
  finally show ?case .
qed

lemma reduce_ordinary_dom:
  assumes "\<forall>r \<in> set ps. ordinary (in' r)"
    and "reduce (paramsStep gz gc) ps (acc, Object_prototype) = Inr (acc', proto')"
    and "\<forall>l. entry acc l ''__proto__'' = None"
  shows "(entry acc' l n \<noteq> None) =
         (entry acc l n \<noteq> None \<or>
          (\<exists>p \<in> set ps. in' p = l \<and> name p = n \<and> n \<noteq> ''__proto__''))"
  using assms
proof (induction ps arbitrary: acc)
  case Nil
  then show ?case by simp
next
  case (Cons p ps)
  from Cons.prems(1,2) obtain a where
    a: "paramsStep gz gc (acc, Object_prototype) p = Inr (a, Object_prototype)"
    and r: "reduce (paramsStep gz gc) ps (a, Object_prototype) = Inr (acc', proto')"
    and o: "ordinary (in' p)" and os: "\<forall>r \<in> set ps. ordinary (in' r)"
    by (rule reduce_ordinary_Cons)
  have e: "(entry a l n \<noteq> None) =
     (entry acc l n \<noteq> None \<or> (in' p = l \<and> name p = n \<and> n \<noteq> ''__proto__''))"
    using paramsStep_ordinary_entry[OF o a Cons.prems(3), of l n] by auto
  have "(entry acc' l n \<noteq> None) =
         (entry a l n \<noteq> None \<or>
          (\<exists>p \<in> set ps. in' p = l \<and> name p = n \<and> n \<noteq> ''__proto__''))"
    by (rule Cons.IH[OF os r paramsStep_ordinary_inv[OF o a Cons.prems(3)]])
  with e show ?case by auto
qed


lemma empty_inv: "\<forall>l. entry [] l ''__proto__'' = None"
  by (simp add: entry_def)


lemma generateParamsObject_Inr:
  "reduce (paramsStep gz gc) ps ([], Object_prototype) = Inr (obj, proto) \<Longrightarrow>
   generateParamsObject gz gc ps = Inr obj"
  by (simp add: generateParamsObject_def)

lemma run_split:
  assumes ord: "\<forall>r \<in> set (xs @ p # zs). ordinary (in' r)"
  shows "\<exists>acc acc' obj.
     reduce (paramsStep gz gc) xs ([], Object_prototype) = Inr (acc, Object_prototype) \<and>
     paramsStep gz gc (acc, Object_prototype) p = Inr (acc', Object_prototype) \<and>
     reduce (paramsStep gz gc) zs (acc', Object_prototype) = Inr (obj, Object_prototype) \<and>
     generateParamsObject gz gc (xs @ p # zs) = Inr obj \<and>
     (\<forall>l. entry acc l ''__proto__'' = None) \<and>
     (\<forall>l. entry acc' l ''__proto__'' = None)"
proof -
  from ord have ox: "\<forall>r \<in> set xs. ordinary (in' r)" and op: "ordinary (in' p)"
    and oz: "\<forall>r \<in> set zs. ordinary (in' r)" by simp_all
  obtain acc where acc: "reduce (paramsStep gz gc) xs ([], Object_prototype) = Inr (acc, Object_prototype)"
    using reduce_ordinary_total[OF ox] by blast
  obtain acc' where acc': "paramsStep gz gc (acc, Object_prototype) p = Inr (acc', Object_prototype)"
    using paramsStep_ordinary_total[OF op] by blast
  obtain obj where obj: "reduce (paramsStep gz gc) zs (acc', Object_prototype) = Inr (obj, Object_prototype)"
    using reduce_ordinary_total[OF oz] by blast
  from acc acc' obj have "generateParamsObject gz gc (xs @ p # zs) = Inr obj"
    by (simp add: generateParamsObject_def reduce_append)
  moreover note i1 = reduce_ordinary_inv[OF ox acc empty_inv]
  moreover note i2 = paramsStep_ordinary_inv[OF op acc' i1]
  ultimately show ?thesis using acc acc' obj by blast
qed

lemma emitted:
  assumes ord: "\<forall>r \<in> set (xs @ p # zs). ordinary (in' r)"
    and np: "name p \<noteq> ''__proto__''"
  shows "\<exists>acc acc' obj.
     reduce (paramsStep gz gc) xs ([], Object_prototype) = Inr (acc, Object_prototype) \<and>
     paramsStep gz gc (acc, Object_prototype) p = Inr (acc', Object_prototype) \<and>
     generateParamsObject gz gc (xs @ p # zs) = Inr obj \<and>
     entry acc' (in' p) (name p) = Some (zodSchema gz gc Object_prototype p @ optionalSuffix p) \<and>
     ((\<forall>r \<in> set zs. \<not> (in' r = in' p \<and> name r = name p)) \<longrightarrow>
        entry obj (in' p) (name p) = Some (zodSchema gz gc Object_prototype p @ optionalSuffix p))"
proof -
  from ord have op: "ordinary (in' p)" and oz: "\<forall>r \<in> set zs. ordinary (in' r)" by simp_all
  from run_split[OF ord, of gz gc] obtain acc acc' obj where
    acc: "reduce (paramsStep gz gc) xs ([], Object_prototype) = Inr (acc, Object_prototype)" and
    acc': "paramsStep gz gc (acc, Object_prototype) p = Inr (acc', Object_prototype)" and
    obj: "reduce (paramsStep gz gc) zs (acc', Object_prototype) = Inr (obj, Object_prototype)" and
    g: "generateParamsObject gz gc (xs @ p # zs) = Inr obj" and
    i1: "\<forall>l. entry acc l ''__proto__'' = None" and
    i2: "\<forall>l. entry acc' l ''__proto__'' = None"
    by blast
  have e: "entry acc' (in' p) (name p) = Some (zodSchema gz gc Object_prototype p @ optionalSuffix p)"
    using np by (simp add: paramsStep_ordinary_entry[OF op acc' i1])
  have "entry obj (in' p) (name p) = Some (zodSchema gz gc Object_prototype p @ optionalSuffix p)"
    if "\<forall>r \<in> set zs. \<not> (in' r = in' p \<and> name r = name p)"
    using reduce_ordinary_unmatched[OF oz obj i2 that] e by simp
  with acc acc' g e show ?thesis by blast
qed

lemma ordinary_locations:
  "ordinary ''path''" "ordinary ''query''" "ordinary ''header''" "ordinary ''body''"
  "ordinary ''cookie''"
  by (simp_all add: ordinary_def Object_prototype_def)



lemmas step_defs = generateParamsObject_def paramsStep_def zodSchema_def schema_type_def
  optionalSuffix_def js_get_def falsy_def Object_prototype_def read_only_def Let_def

section \<open>Properties of the HTTP-method test\<close>

text \<open>
  C8. \<open>isHttpMethod\<close> is true exactly for the seven lower-case tokens get, post, put,
  delete, patch, options and head. The comparison is exact: no case folding takes place,
  so the upper-case spellings are rejected. The function is a total predicate on strings;
  it has no state to change and no way to fail.
\<close>

theorem isHttpMethod_iff:
  "isHttpMethod s =
     (s \<in> {''get'', ''post'', ''put'', ''delete'', ''patch'', ''options'', ''head''})
   \<and> \<not> isHttpMethod ''GET'' \<and> \<not> isHttpMethod ''Post'' \<and> \<not> isHttpMethod ''HEAD''
   \<and> \<not> isHttpMethod '''' \<and> \<not> isHttpMethod ''get ''"
  by (auto simp add: isHttpMethod_def)

section \<open>Properties of the object-schema builder\<close>

text \<open>
  C9, as amended. \<open>generateZodObjectSchema\<close> returns \<^verbatim>\<open>z.object({\<close>, then the
  entries of the argument as \<^verbatim>\<open>key:val\<close> pieces joined by commas, then \<^verbatim>\<open>})\<close>. The
  pieces stand in the order of \<^verbatim>\<open>Object.entries\<close>: first the entries whose keys are
  array indices, by ascending index, then all other entries in the order of their
  insertion. For an object none of whose keys is an array index this is the insertion
  order. The object without properties gives \<^verbatim>\<open>z.object({})\<close>.
\<close>

theorem generateZodObjectSchema_text:
  "generateZodObjectSchema [] = ''z.object({})'' \<and>
   (\<exists>ixs. generateZodObjectSchema obj =
        ''z.object({'' @
          array_join (map (\<lambda>(key, val). key @ '':'' @ val)
            (ixs @ filter (\<lambda>kv. array_index (fst kv) = None) obj)) '','' @
        ''})'' \<and>
      mset ixs = mset (filter (\<lambda>kv. array_index (fst kv) \<noteq> None) obj) \<and>
      sorted (map index_of ixs)) \<and>
   ((\<forall>kv \<in> set obj. array_index (fst kv) = None) \<longrightarrow>
      generateZodObjectSchema obj =
        ''z.object({'' @ array_join (map (\<lambda>(key, val). key @ '':'' @ val) obj) '','' @ ''})'') \<and>
   (Object_entries obj = (k, v) # rest \<longrightarrow>
      generateZodObjectSchema obj =
        ''z.object({'' @ k @ '':'' @ v @
           concat (map (\<lambda>(key, val). '','' @ key @ '':'' @ val) rest) @ ''})'')"
proof (intro conjI impI)
  show "generateZodObjectSchema [] = ''z.object({})''"
    by (simp add: generateZodObjectSchema_def Object_entries_def)
next
  show "\<exists>ixs. generateZodObjectSchema obj =
        ''z.object({'' @
          array_join (map (\<lambda>(key, val). key @ '':'' @ val)
            (ixs @ filter (\<lambda>kv. array_index (fst kv) = None) obj)) '','' @
        ''})'' \<and>
      mset ixs = mset (filter (\<lambda>kv. array_index (fst kv) \<noteq> None) obj) \<and>
      sorted (map index_of ixs)"
    by (rule exI[of _ "sort_key index_of (filter (\<lambda>kv. array_index (fst kv) \<noteq> None) obj)"])
       (simp add: generateZodObjectSchema_def Object_entries_def)
next
  assume "\<forall>kv \<in> set obj. array_index (fst kv) = None"
  then show "generateZodObjectSchema obj =
        ''z.object({'' @ array_join (map (\<lambda>(key, val). key @ '':'' @ val) obj) '','' @ ''})''"
    by (simp add: generateZodObjectSchema_def Object_entries_named)
next
  assume "Object_entries obj = (k, v) # rest"
  then show "generateZodObjectSchema obj =
        ''z.object({'' @ k @ '':'' @ v @
           concat (map (\<lambda>(key, val). '','' @ key @ '':'' @ val) rest) @ ''})''"
    by (simp add: generateZodObjectSchema_def array_join_Cons comp_def case_prod_unfold)
qed

theorem generateZodObjectSchema_text_witness:
  "generateZodObjectSchema
     [(''name'', ''z.string()''), (''age'', ''z.number()''), (''isActive'', ''z.boolean()'')] =
   ''z.object({name:z.string(),age:z.number(),isActive:z.boolean()})''"
proof -
  let ?obj = "[(''name'', ''z.string()''), (''age'', ''z.number()''), (''isActive'', ''z.boolean()'')]"
  have h: "\<forall>kv \<in> set ?obj. array_index (fst kv) = None"
    by (simp add: array_index_examples)
  from generateZodObjectSchema_text[of ?obj] h
  have "generateZodObjectSchema ?obj =
        ''z.object({'' @ array_join (map (\<lambda>(key, val). key @ '':'' @ val) ?obj) '','' @ ''})''"
    by blast
  then show ?thesis by simp
qed

text \<open>
  C9 as stated says that the pieces always stand in insertion order. An object that
  received the key \<^verbatim>\<open>b\<close> before the key \<^verbatim>\<open>1\<close> refutes it: the piece of \<^verbatim>\<open>1\<close>
  comes first.
\<close>

theorem insertion_order_counterexample:
  "\<not> (\<forall>obj. generateZodObjectSchema obj =
        ''z.object({'' @ array_join (map (\<lambda>(key, val). key @ '':'' @ val) obj) '','' @ ''})'')"
proof
  assume a: "\<forall>obj. generateZodObjectSchema obj =
        ''z.object({'' @ array_join (map (\<lambda>(key, val). key @ '':'' @ val) obj) '','' @ ''})''"
  let ?obj = "[(''b'', ''z.string()''), (''1'', ''z.number()'')]"
  have e: "Object_entries ?obj = [(''1'', ''z.number()''), (''b'', ''z.string()'')]"
    by (simp add: Object_entries_def array_index_examples index_of_def)
  have "generateZodObjectSchema ?obj = ''z.object({1:z.number(),b:z.string()})''"
    by (simp add: generateZodObjectSchema_def e)
  moreover from a have "generateZodObjectSchema ?obj = ''z.object({b:z.string(),1:z.number()})''"
    by simp
  ultimately show False by simp
qed

section \<open>Properties of the parameter classifier\<close>

text \<open>
  C1. The claim is that the result holds the four sections params, query, headers and
  body for every parameter list. The reduction starts from the object without
  properties and creates a section only when a parameter of that location arrives, so
  the empty list gives an object with no section at all.
\<close>

theorem generateParamsObject_empty_list:
  "generateParamsObject gz gc [] = Inr [] \<and>
   (\<exists>obj. generateParamsObject gz gc [] = Inr obj \<and> obj_keys obj = [] \<and>
      obj_get obj ''params'' = None \<and> obj_get obj ''query'' = None \<and>
      obj_get obj ''headers'' = None \<and> obj_get obj ''body'' = None)"
  by (simp add: generateParamsObject_def obj_keys_def)

text \<open>
  C2. The two parameters of scenario A: a required path parameter \<^verbatim>\<open>userId\<close> of type
  string and an optional query parameter \<^verbatim>\<open>page\<close> of type integer. The result has
  exactly two sections. The first is named \<^verbatim>\<open>path\<close> (there is no section
  \<^verbatim>\<open>params\<close>) and maps \<^verbatim>\<open>userId\<close> to the expression of its schema; the second is
  \<^verbatim>\<open>query\<close> and maps \<^verbatim>\<open>page\<close> to the coerced expression followed by
  \<^verbatim>\<open>.optional()\<close>. Sections \<^verbatim>\<open>headers\<close> and \<^verbatim>\<open>body\<close> are absent.
\<close>

theorem generateParamsObject_scenario_A:
  "generateParamsObject gz gc
     [\<lparr>name = ''userId'', in' = ''path'', required = True,
        schema = \<lparr>type = Some ''string''\<rparr>\<rparr>,
      \<lparr>name = ''page'', in' = ''query'', required = False,
        schema = \<lparr>type = Some ''integer''\<rparr>\<rparr>]
   = Inr [(''path'', [(''userId'', gz \<lparr>type = Some ''string''\<rparr>)]),
          (''query'', [(''page'',
             gc ''z.string()'' (gz \<lparr>type = Some ''integer''\<rparr>) @ ''.optional()'')])]"
  by (simp add: step_defs)







text \<open>
  C5, as amended. Take a parameter list in which no location names a member of
  \<^verbatim>\<open>Object.prototype\<close>, and in it a parameter \<open>p\<close> whose location is none of path,
  query, header and body. The run raises no error and returns an object that has a
  section named by \<open>p\<close>'s location. Unless \<open>p\<close> is named \<^verbatim>\<open>__proto__\<close>, the section
  has \<open>p\<close>'s name as a key, bound to \<open>p\<close>'s expression when no later parameter has
  the same location and name.
\<close>

theorem generateParamsObject_unknown_location:
  assumes "\<forall>r \<in> set (xs @ p # zs). ordinary (in' r)"
    and "in' p \<notin> {''path'', ''query'', ''header'', ''body''}"
  shows "\<exists>obj s. generateParamsObject gz gc (xs @ p # zs) = Inr obj \<and>
           in' p \<in> set (obj_keys obj) \<and>
           obj_get obj (in' p) = Some s \<and>
           (name p \<noteq> ''__proto__'' \<longrightarrow>
              name p \<in> set (obj_keys s) \<and>
              ((\<forall>r \<in> set zs. \<not> (in' r = in' p \<and> name r = name p)) \<longrightarrow>
                 obj_get s (name p) =
                   Some (zodSchema gz gc Object_prototype p @ optionalSuffix p)))"
proof -
  obtain obj where r: "reduce (paramsStep gz gc) (xs @ p # zs) ([], Object_prototype) =
      Inr (obj, Object_prototype)"
    using reduce_ordinary_total[OF assms(1)] by blast
  then have g: "generateParamsObject gz gc (xs @ p # zs) = Inr obj"
    by (rule generateParamsObject_Inr)
  have "in' p \<in> set (obj_keys obj)"
    by (simp add: reduce_ordinary_sections[OF assms(1) r])
  then obtain s where s: "obj_get obj (in' p) = Some s"
    by (auto simp: obj_keys_get)
  have k: "name p \<in> set (obj_keys s)" if np: "name p \<noteq> ''__proto__''"
  proof -
    have "entry obj (in' p) (name p) \<noteq> None"
      using reduce_ordinary_dom[OF assms(1) r empty_inv, of "in' p" "name p"] np by auto
    with s show ?thesis by (simp add: entry_def obj_keys_get)
  qed
  have v: "obj_get s (name p) = Some (zodSchema gz gc Object_prototype p @ optionalSuffix p)"
    if np: "name p \<noteq> ''__proto__''"
      and last: "\<forall>r \<in> set zs. \<not> (in' r = in' p \<and> name r = name p)"
  proof -
    from emitted[OF assms(1) np, of gz gc] g last
    have "entry obj (in' p) (name p) = Some (zodSchema gz gc Object_prototype p @ optionalSuffix p)"
      by auto
    with s show ?thesis by (simp add: entry_def)
  qed
  from g \<open>in' p \<in> set (obj_keys obj)\<close> s k v show ?thesis by blast
qed

theorem generateParamsObject_unknown_location_witness:
  "\<forall>(gz :: Schema \<Rightarrow> string) gc.
     \<exists>obj s. generateParamsObject gz gc
        [\<lparr>name = ''session'', in' = ''cookie'', required = True,
           schema = \<lparr>type = Some ''string''\<rparr>\<rparr>] = Inr obj \<and>
        ''cookie'' \<in> set (obj_keys obj) \<and>
        obj_get obj ''cookie'' = Some s \<and>
        obj_get s ''session'' = Some (gz \<lparr>type = Some ''string''\<rparr>)"
proof (intro allI)
  fix gz :: "Schema \<Rightarrow> string" and gc :: "string \<Rightarrow> string \<Rightarrow> string"
  let ?p = "\<lparr>name = ''session'', in' = ''cookie'', required = True,
           schema = \<lparr>type = Some ''string''\<rparr>\<rparr>"
  have h: "\<forall>r \<in> set ([] @ ?p # []). ordinary (in' r)"
    "in' ?p \<notin> {''path'', ''query'', ''header'', ''body''}"
    by (simp_all add: ordinary_locations)
  from generateParamsObject_unknown_location[OF h, of gz gc]
  show "\<exists>obj s. generateParamsObject gz gc [?p] = Inr obj \<and>
        ''cookie'' \<in> set (obj_keys obj) \<and>
        obj_get obj ''cookie'' = Some s \<and>
        obj_get s ''session'' = Some (gz \<lparr>type = Some ''string''\<rparr>)"
    by (auto simp: zodSchema_pristine optionalSuffix_def)
qed

text \<open>
  C5 as stated says that such a parameter makes the classifier signal an error. A
  cookie parameter refutes it: the run returns normally with a section \<^verbatim>\<open>cookie\<close>.
\<close>

theorem unknown_location_error_counterexample:
  "\<not> (\<forall>(gz :: Schema \<Rightarrow> string) gc p.
        in' p \<notin> {''path'', ''query'', ''header'', ''body''} \<longrightarrow>
        (\<exists>e. generateParamsObject gz gc [p] = Inl e))"
proof
  assume a: "\<forall>(gz :: Schema \<Rightarrow> string) gc p.
        in' p \<notin> {''path'', ''query'', ''header'', ''body''} \<longrightarrow>
        (\<exists>e. generateParamsObject gz gc [p] = Inl e)"
  let ?p = "\<lparr>name = ''session'', in' = ''cookie'', required = True,
              schema = \<lparr>type = Some ''string''\<rparr>\<rparr>"
  have "generateParamsObject (\<lambda>s. ''z.string()'') (\<lambda>a b. b) [?p] =
          Inr [(''cookie'', [(''session'', ''z.string()'')])]"
    by (simp add: step_defs)
  moreover from a[rule_format, of ?p "\<lambda>s. ''z.string()''" "\<lambda>a b. b"]
  have "\<exists>e. generateParamsObject (\<lambda>s. ''z.string()'') (\<lambda>a b. b) [?p] = Inl e"
    by simp
  ultimately show False by simp
qed










end
